theory Spec2Isabelle
  imports Main "HOL-Library.Sublist"
begin

section \<open>The module \<open>cl.py\<close>: flags, options and remaining arguments\<close>

text \<open>
  The module keeps two module-level lists: \<open>arguments\<close>, which \<open>flag\<close> and
  \<open>option\<close> consume, and \<open>_original_arguments\<close>, a copy taken once at import
  and only ever searched. Both functions mutate the first list in place, so the model
  passes the pair of lists as a state and returns the updated state next to the result.
\<close>

subsection \<open>Python values, exceptions and list primitives\<close>

text \<open>
  \<open>option\<close> is dynamically typed: it returns \<open>default\<close>, \<open>missing\<close> or whatever
  \<open>convert\<close> returns. The operations are polymorphic in that value type; the concrete
  calls of the documentation use the values below.
\<close>

datatype py_value = PyNone | PyStr string | PyInt int

text \<open>
  The exceptions \<open>option\<close> distinguishes. \<open>ValueError\<close> is any exception that
  \<^verbatim>\<open>except ValueError\<close> catches (the class or a subclass), \<open>IndexError\<close> any other
  exception that \<^verbatim>\<open>except IndexError\<close> catches, and \<open>OtherException\<close> every exception
  neither handler catches, tagged with its class name.
\<close>

datatype py_exception = ValueError | IndexError | OtherException string

text \<open>
  \<^verbatim>\<open>xs.index(x)\<close>: the position of the first element equal to \<open>x\<close>; \<open>None\<close> stands
  for the \<open>ValueError\<close> raised when there is none.
\<close>

fun list_index :: "'a list \<Rightarrow> 'a \<Rightarrow> nat option" where
  "list_index [] x = None"
| "list_index (y # ys) x =
     (if y = x then Some 0
      else (case list_index ys x of None \<Rightarrow> None | Some i \<Rightarrow> Some (Suc i)))"

text \<open>
  \<^verbatim>\<open>xs[i]\<close> for a non-negative index; \<open>None\<close> stands for the \<open>IndexError\<close> raised
  when \<open>i\<close> is past the end.
\<close>

definition list_getitem :: "'a list \<Rightarrow> nat \<Rightarrow> 'a option" where
  "list_getitem xs i = (if i < length xs then Some (xs ! i) else None)"

subsection \<open>Glob expansion\<close>

text \<open>
  \<^verbatim>\<open>'win32' in sys.platform\<close> is a substring test on the platform string.
\<close>

definition is_win32 :: "string \<Rightarrow> bool" where
  "is_win32 platform = sublist ''win32'' platform"

text \<open>
  \<open>_glob_expand\<close>. The library function \<open>glob.glob\<close> is a parameter \<open>glob\<close>: for a
  pattern it returns the list of paths the file system holds, or raises; it answers the
  same for both calls the loop makes for one argument. \<open>_glob_expand\<close> has no handler,
  so an exception of either call leaves the function. The loop appends to
  \<open>glob_expanded_arguments\<close>, the accumulator of \<open>glob_loop\<close>.
\<close>

fun glob_loop :: "(string \<Rightarrow> py_exception + string list) \<Rightarrow> string list \<Rightarrow> string list \<Rightarrow> py_exception + string list" where
  "glob_loop glob [] glob_expanded_arguments = Inr glob_expanded_arguments"
| "glob_loop glob (arg # rest) glob_expanded_arguments =
     (case glob arg of
        Inl e \<Rightarrow> Inl e
      | Inr globbed \<Rightarrow>
          if globbed \<noteq> []
          then (case glob arg of
                  Inl e \<Rightarrow> Inl e
                | Inr matches \<Rightarrow> glob_loop glob rest (glob_expanded_arguments @ matches))
          else glob_loop glob rest (glob_expanded_arguments @ [arg]))"

definition glob_expand :: "string \<Rightarrow> (string \<Rightarrow> py_exception + string list) \<Rightarrow> string list \<Rightarrow> py_exception + string list" where
  "glob_expand platform glob arguments =
     (if is_win32 platform then glob_loop glob arguments [] else Inr arguments)"

text \<open>
  A pattern on which the standard \<open>glob.glob\<close> raises \<open>RecursionError\<close>: 1200
  nested directory wildcards, \<^verbatim>\<open>'*/' * 1200 + '*'\<close>. It is an input for a concrete
  call below, not part of the module.
\<close>

definition deep_pattern :: string where
  "deep_pattern = concat (replicate 1200 ''*/'') @ ''*''"

subsection \<open>Module state\<close>

record cl_state =
  arguments :: "string list"
  original_arguments :: "string list"

text \<open>
  Module initialisation: \<^verbatim>\<open>arguments = _glob_expand(sys.argv[1:])\<close> and
  \<^verbatim>\<open>_original_arguments = arguments.copy()\<close>. \<open>init_state\<close> takes the expanded list;
  an exception of the expansion ends the import before either list exists.
\<close>

definition init_state :: "string list \<Rightarrow> cl_state" where
  "init_state raw = \<lparr>arguments = raw, original_arguments = raw\<rparr>"

definition module_init :: "string \<Rightarrow> (string \<Rightarrow> py_exception + string list) \<Rightarrow> string list \<Rightarrow> py_exception + cl_state" where
  "module_init platform glob argv =
     (case glob_expand platform glob (drop 1 argv) of
        Inl e \<Rightarrow> Inl e
      | Inr raw \<Rightarrow> Inr (init_state raw))"

subsection \<open>\<open>flag\<close> and \<open>option\<close>\<close>

text \<open>
  \<^verbatim>\<open>if x in arguments: arguments.remove(x)\<close>: \<open>remove\<close> deletes the first element
  equal to \<open>x\<close>; the membership test keeps it from raising.
\<close>

definition remove_if_present :: "string \<Rightarrow> cl_state \<Rightarrow> cl_state" where
  "remove_if_present x s =
     (if x \<in> set (arguments s) then s\<lparr>arguments := remove1 x (arguments s)\<rparr> else s)"

text \<open>
  \<open>flag\<close>: the only statement of the \<open>try\<close> block that raises is the \<open>index\<close>
  call, and its \<open>ValueError\<close> is caught.
\<close>

definition flag :: "cl_state \<Rightarrow> string \<Rightarrow> bool \<times> cl_state" where
  "flag s name =
     (case list_index (original_arguments s) name of
        None \<Rightarrow> (False, s)
      | Some i \<Rightarrow> (True, remove_if_present name s))"

text \<open>
  The \<open>try\<close> block of \<open>option\<close>: its outcome is a value or the exception that left
  the block, together with the state at that moment. \<open>convert\<close> is any callable on the
  value string: it returns a value or raises.
\<close>

definition option_try :: "cl_state \<Rightarrow> string \<Rightarrow> (string \<Rightarrow> py_exception + 'v) \<Rightarrow> (py_exception + 'v) \<times> cl_state" where
  "option_try s name convert =
     (case list_index (original_arguments s) name of
        None \<Rightarrow> (Inl ValueError, s)
      | Some i \<Rightarrow>
          (let s1 = remove_if_present name s in
           case list_getitem (original_arguments s1) (i + 1) of
             None \<Rightarrow> (Inl IndexError, s1)
           | Some val \<Rightarrow>
               (let s2 = remove_if_present val s1 in
                (convert val, s2))))"

text \<open>
  \<open>option\<close>: the two \<open>except\<close> clauses applied to the outcome of the \<open>try\<close> block;
  any other exception leaves the function. (\<open>dflt\<close> is the parameter
  \<open>default\<close>.)
\<close>

definition option :: "cl_state \<Rightarrow> string \<Rightarrow> 'v \<Rightarrow> 'v \<Rightarrow> (string \<Rightarrow> py_exception + 'v) \<Rightarrow> (py_exception + 'v) \<times> cl_state" where
  "option s name dflt missing convert =
     (case option_try s name convert of
        (Inl ValueError, s') \<Rightarrow> (Inr dflt, s')
      | (Inl IndexError, s') \<Rightarrow> (Inr missing, s')
      | (r, s') \<Rightarrow> (r, s'))"

text \<open>The defaults of the signature: \<^verbatim>\<open>default=None, missing='', convert=str\<close>.\<close>

definition convert_str :: "string \<Rightarrow> py_exception + py_value" where
  "convert_str v = Inr (PyStr v)"

definition option_defaults :: "cl_state \<Rightarrow> string \<Rightarrow> (py_exception + py_value) \<times> cl_state" where
  "option_defaults s name = option s name PyNone (PyStr '''') convert_str"

text \<open>
  A converter of the kind a caller passes as \<open>convert\<close> where the documentation
  writes \<^verbatim>\<open>convert=int\<close>: a non-empty string of ASCII digits is read as a decimal
  number and any other text raises \<open>ValueError\<close>. It is an input for the concrete calls
  below, not part of the module.
\<close>

definition is_digit :: "char \<Rightarrow> bool" where
  "is_digit c = (c \<in> set ''0123456789'')"

definition convert_decimal :: "string \<Rightarrow> py_exception + py_value" where
  "convert_decimal v =
     (if v \<noteq> [] \<and> list_all is_digit v
      then Inr (PyInt (foldl (\<lambda>n c. 10 * n + (int (of_char c) - 48)) 0 v))
      else Inl ValueError)"

subsection \<open>Sequences of queries\<close>

text \<open>
  A caller makes any number of \<open>flag\<close> and \<open>option\<close> calls; a call that raises still
  leaves its removals behind, so the state is threaded through whatever the outcome.
\<close>

datatype 'v query =
  Flag string
| Option string 'v 'v "string \<Rightarrow> py_exception + 'v"

fun run_query :: "cl_state \<Rightarrow> 'v query \<Rightarrow> cl_state" where
  "run_query s (Flag name) = snd (flag s name)"
| "run_query s (Option name dflt missing convert) = snd (option s name dflt missing convert)"

fun run_queries :: "cl_state \<Rightarrow> 'v query list \<Rightarrow> cl_state" where
  "run_queries s [] = s"
| "run_queries s (q # qs) = run_queries (run_query s q) qs"

section \<open>Basic facts\<close>

lemma module_init_copies:
  "module_init platform glob argv = Inr s \<Longrightarrow> original_arguments s = arguments s"
  by (auto simp add: module_init_def init_state_def split: sum.splits)

lemma list_index_None: "list_index xs x = None \<longleftrightarrow> x \<notin> set xs"
  by (induction xs) (auto split: option.splits)

lemma list_index_Some:
  "list_index xs x = Some i \<longleftrightarrow> i < length xs \<and> xs ! i = x \<and> x \<notin> set (take i xs)"
proof (induction xs arbitrary: i)
  case Nil
  show ?case by simp
next
  case (Cons y ys)
  show ?case
  proof (cases i)
    case 0
    then show ?thesis by (simp split: option.splits)
  next
    case (Suc j)
    show ?thesis
    proof (cases "y = x")
      case True
      then show ?thesis by (simp add: Suc)
    next
      case False
      then have "list_index (y # ys) x = Some i \<longleftrightarrow> list_index ys x = Some j"
        by (cases "list_index ys x") (simp_all add: Suc)
      also have "\<dots> \<longleftrightarrow> j < length ys \<and> ys ! j = x \<and> x \<notin> set (take j ys)"
        by (rule Cons.IH)
      also have "\<dots> \<longleftrightarrow> i < length (y # ys) \<and> (y # ys) ! i = x \<and> x \<notin> set (take i (y # ys))"
        using False by (simp add: Suc)
      finally show ?thesis .
    qed
  qed
qed

lemma subseq_remove1: "subseq (remove1 x xs) xs"
  by (induction xs) auto

lemma subseq_count_list: "subseq xs ys \<Longrightarrow> count_list xs x \<le> count_list ys x"
  by (induction rule: list_emb.induct) auto

lemma arguments_remove_if_present:
  "arguments (remove_if_present x s) = remove1 x (arguments s)"
  by (simp add: remove_if_present_def remove1_idem)

lemma original_remove_if_present:
  "original_arguments (remove_if_present x s) = original_arguments s"
  by (simp add: remove_if_present_def)

lemma remove_if_present_eq:
  "remove_if_present x s = s\<lparr>arguments := remove1 x (arguments s)\<rparr>"
  by (simp add: remove_if_present_def remove1_idem)

lemma flag_absent: "name \<notin> set (original_arguments s) \<Longrightarrow> flag s name = (False, s)"
  by (simp add: flag_def list_index_None[THEN iffD2])

lemma flag_present:
  "name \<in> set (original_arguments s) \<Longrightarrow> flag s name = (True, remove_if_present name s)"
  by (cases "list_index (original_arguments s) name") (simp_all add: flag_def list_index_None)

lemma option_try_absent:
  "name \<notin> set (original_arguments s) \<Longrightarrow> option_try s name convert = (Inl ValueError, s)"
  by (simp add: option_try_def list_index_None[THEN iffD2])

lemma option_try_last:
  "list_index (original_arguments s) name = Some i \<Longrightarrow> length (original_arguments s) \<le> i + 1 \<Longrightarrow>
   option_try s name convert = (Inl IndexError, remove_if_present name s)"
  by (simp add: option_try_def list_getitem_def original_remove_if_present)

lemma option_try_value:
  "list_index (original_arguments s) name = Some i \<Longrightarrow> i + 1 < length (original_arguments s) \<Longrightarrow>
   option_try s name convert =
     (convert (original_arguments s ! (i + 1)),
      remove_if_present (original_arguments s ! (i + 1)) (remove_if_present name s))"
  by (simp add: option_try_def list_getitem_def original_remove_if_present)

lemma option_absent: "name \<notin> set (original_arguments s) \<Longrightarrow> option s name dflt missing convert = (Inr dflt, s)"
  by (simp add: option_def option_try_absent)

lemma option_last:
  "list_index (original_arguments s) name = Some i \<Longrightarrow> length (original_arguments s) \<le> i + 1 \<Longrightarrow>
   option s name dflt missing convert = (Inr missing, remove_if_present name s)"
  by (simp add: option_def option_try_last)

lemma option_value:
  "list_index (original_arguments s) name = Some i \<Longrightarrow> i + 1 < length (original_arguments s) \<Longrightarrow>
   option s name dflt missing convert =
     (case convert (original_arguments s ! (i + 1)) of
        Inl ValueError \<Rightarrow> Inr dflt
      | Inl IndexError \<Rightarrow> Inr missing
      | r \<Rightarrow> r,
      remove_if_present (original_arguments s ! (i + 1)) (remove_if_present name s))"
  by (simp add: option_def option_try_value split: sum.splits py_exception.splits)

lemma original_flag: "original_arguments (snd (flag s name)) = original_arguments s"
  by (simp add: flag_def original_remove_if_present split: option.splits)

lemma option_cases:
  obtains (absent) "option s name dflt missing convert = (Inr dflt, s)"
  | (last) "option s name dflt missing convert = (Inr missing, remove_if_present name s)"
  | (val) r v where "option s name dflt missing convert = (r, remove_if_present v (remove_if_present name s))"
proof (cases "list_index (original_arguments s) name")
  case None
  then have "name \<notin> set (original_arguments s)" by (simp add: list_index_None)
  then have "option s name dflt missing convert = (Inr dflt, s)" by (rule option_absent)
  then show ?thesis by (rule absent)
next
  case (Some i)
  show ?thesis
  proof (cases "i + 1 < length (original_arguments s)")
    case True
    show ?thesis by (rule val, rule option_value[OF Some True])
  next
    case False
    then have "length (original_arguments s) \<le> i + 1" by simp
    then show ?thesis by (rule last[OF option_last[OF Some]])
  qed
qed

lemma original_option: "original_arguments (snd (option s name dflt missing convert)) = original_arguments s"
  by (cases rule: option_cases[of s name dflt missing convert])
     (simp_all add: original_remove_if_present)

lemma original_run_query: "original_arguments (run_query s q) = original_arguments s"
  by (cases q) (simp_all add: original_flag original_option)

lemma original_run_queries: "original_arguments (run_queries s qs) = original_arguments s"
  by (induction qs arbitrary: s) (simp_all add: original_run_query)

lemma original_reachable: "original_arguments (run_queries (init_state raw) qs) = raw"
  by (simp add: original_run_queries init_state_def)

lemma subseq_flag: "subseq (arguments (snd (flag s name))) (arguments s)"
  by (simp add: flag_def arguments_remove_if_present subseq_remove1 split: option.splits)

lemma subseq_remove1_twice: "subseq (remove1 y (remove1 x xs)) xs"
proof -
  have "subseq (remove1 y (remove1 x xs)) (remove1 x xs)" by (rule subseq_remove1)
  moreover have "subseq (remove1 x xs) xs" by (rule subseq_remove1)
  ultimately show ?thesis by (rule subseq_order.trans)
qed

lemma subseq_option: "subseq (arguments (snd (option s name dflt missing convert))) (arguments s)"
  by (cases rule: option_cases[of s name dflt missing convert])
     (simp_all add: arguments_remove_if_present subseq_remove1 subseq_remove1_twice)

lemma subseq_run_query: "subseq (arguments (run_query s q)) (arguments s)"
proof (cases q)
  case (Flag name)
  show ?thesis unfolding Flag run_query.simps by (rule subseq_flag)
next
  case (Option name dflt missing convert)
  show ?thesis unfolding Option run_query.simps by (rule subseq_option)
qed

lemma subseq_run_queries: "subseq (arguments (run_queries s qs)) (arguments s)"
proof (induction qs arbitrary: s)
  case Nil
  show ?case by simp
next
  case (Cons q qs)
  have "subseq (arguments (run_queries (run_query s q) qs)) (arguments (run_query s q))"
    by (rule Cons.IH)
  moreover have "subseq (arguments (run_query s q)) (arguments s)"
    by (rule subseq_run_query)
  ultimately show ?case
    unfolding run_queries.simps by (rule subseq_order.trans)
qed

lemma glob_loop_returns:
  assumes "\<forall>a\<in>set args. glob a = Inr (matches a)"
  shows "glob_loop glob args acc
           = Inr (acc @ concat (map (\<lambda>arg. if matches arg \<noteq> [] then matches arg else [arg]) args))"
  using assms by (induction args arbitrary: acc) simp_all

lemma glob_loop_raises:
  assumes "\<forall>b\<in>set front. glob b = Inr (matches b)" and "glob a = Inl e"
  shows "glob_loop glob (front @ a # rest) acc = Inl e"
  using assms by (induction front arbitrary: acc) simp_all

lemma subseq_set_subset: "subseq xs ys \<Longrightarrow> set xs \<subseteq> set ys"
  by (induction rule: list_emb.induct) auto

lemma length_remove1_le: "length (remove1 x xs) \<le> length xs"
  by (simp add: length_remove1)

lemma length_remove1_less:
  assumes "x \<in> set xs"
  shows "length (remove1 x xs) < length xs"
proof -
  from assms have "0 < length xs" by (rule length_pos_if_in_set)
  with assms show ?thesis by (simp add: length_remove1)
qed

lemma remove1_twice_once:
  assumes "count_list xs x \<le> 1"
  shows "remove1 x (remove1 x xs) = remove1 x xs"
proof -
  have "count_list (remove1 x xs) x = 0"
    using assms by (simp add: count_list_remove1)
  then have "x \<notin> set (remove1 x xs)"
    by (rule iffD1[OF count_list_0_iff])
  then show ?thesis by (rule remove1_idem)
qed

lemma flag_present_state:
  assumes "name \<in> set (original_arguments s)"
  shows "flag s name = (True, s\<lparr>arguments := remove1 name (arguments s)\<rparr>)"
  using assms by (simp add: flag_present remove_if_present_eq)

lemma option_last_state:
  assumes "original_arguments s = front @ [name]" and "name \<notin> set front"
  shows "option s name dflt missing convert = (Inr missing, remove_if_present name s)"
proof -
  have "list_index (original_arguments s) name = Some (length front)"
    using assms by (simp add: list_index_Some)
  moreover have "length (original_arguments s) \<le> length front + 1"
    using assms by simp
  ultimately show ?thesis by (rule option_last)
qed

lemma option_value_state:
  assumes "original_arguments s = raw" and "i + 1 < length raw" and "raw ! i = name"
    and "name \<notin> set (take i raw)"
  shows "option s name dflt missing convert =
     (case convert (raw ! (i + 1)) of
        Inl ValueError \<Rightarrow> Inr dflt
      | Inl IndexError \<Rightarrow> Inr missing
      | r \<Rightarrow> r,
      s\<lparr>arguments := remove1 (raw ! (i + 1)) (remove1 name (arguments s))\<rparr>)"
proof -
  have "list_index (original_arguments s) name = Some i"
    using assms by (simp add: list_index_Some)
  moreover have "i + 1 < length (original_arguments s)"
    using assms by simp
  ultimately have "option s name dflt missing convert =
     (case convert (original_arguments s ! (i + 1)) of
        Inl ValueError \<Rightarrow> Inr dflt
      | Inl IndexError \<Rightarrow> Inr missing
      | r \<Rightarrow> r,
      remove_if_present (original_arguments s ! (i + 1)) (remove_if_present name s))"
    by (rule option_value)
  moreover have "remove_if_present (raw ! (i + 1)) (remove_if_present name s)
      = s\<lparr>arguments := remove1 (raw ! (i + 1)) (remove1 name (arguments s))\<rparr>"
    by (simp add: remove_if_present_eq)
  ultimately show ?thesis using assms(1) by simp
qed

lemma glob_loop_literal:
  assumes "\<forall>a\<in>set args. glob a = Inr [a] \<or> glob a = Inr []"
  shows "glob_loop glob args acc = Inr (acc @ args)"
  using assms by (induction args arbitrary: acc) auto

lemma glob_expand_not_win32: "\<not> is_win32 platform \<Longrightarrow> glob_expand platform glob args = Inr args"
  by (simp add: glob_expand_def)

section \<open>Glob expansion\<close>

text \<open>
  Claim C8, as amended. On Windows (the platform string contains \<open>win32\<close>) the
  expansion treats each argument on its own and in the order given: when \<open>glob\<close>
  returns for every argument, an argument with matches is replaced by the list of its
  matches, an argument without a match is kept as it is, as one argument, and the results
  are concatenated in argument order. The loop raises nothing of its own, but it does not
  catch what \<open>glob\<close> raises: the exception of the first argument on which \<open>glob\<close>
  raises leaves the function.
\<close>

theorem glob_expand_win32:
  assumes "is_win32 platform"
  shows "((\<forall>a\<in>set args. glob a = Inr (matches a)) \<longrightarrow>
            glob_expand platform glob args
              = Inr (concat (map (\<lambda>arg. if matches arg \<noteq> [] then matches arg else [arg]) args)))
         \<and> ((\<forall>b\<in>set front. glob b = Inr (matches b)) \<and> glob a = Inl e \<longrightarrow>
            glob_expand platform glob (front @ a # rest) = Inl e)"
proof -
  have "glob_loop glob args []
      = Inr (concat (map (\<lambda>arg. if matches arg \<noteq> [] then matches arg else [arg]) args))"
    if "\<forall>a\<in>set args. glob a = Inr (matches a)"
    using glob_loop_returns[OF that, of "[]"] by simp
  moreover have "glob_loop glob (front @ a # rest) [] = Inl e"
    if "(\<forall>b\<in>set front. glob b = Inr (matches b)) \<and> glob a = Inl e"
  proof -
    from that have "\<forall>b\<in>set front. glob b = Inr (matches b)" and "glob a = Inl e"
      by simp_all
    then show ?thesis by (rule glob_loop_raises)
  qed
  ultimately show ?thesis
    using assms unfolding glob_expand_def by (simp only: if_True) blast
qed

theorem glob_expand_win32_witness:
  "is_win32 ''win32'' \<and>
   glob_expand ''win32'' (\<lambda>p. Inr (if p = ''*.csv'' then [''b.csv'', ''a.csv''] else []))
       [''*.csv'', ''*.pyc'', ''-r'', ''*.csv'']
     = Inr [''b.csv'', ''a.csv'', ''*.pyc'', ''-r'', ''b.csv'', ''a.csv''] \<and>
   glob_expand ''win32''
       (\<lambda>p. if p = ''bad'' then Inl (OtherException ''RecursionError'') else Inr [])
       [''-r'', ''bad'', ''x'']
     = Inl (OtherException ''RecursionError'')"
proof -
  have w: "is_win32 ''win32''"
    by (simp add: is_win32_def)
  have "glob_expand ''win32'' (\<lambda>p. Inr (if p = ''*.csv'' then [''b.csv'', ''a.csv''] else []))
       [''*.csv'', ''*.pyc'', ''-r'', ''*.csv'']
     = Inr [''b.csv'', ''a.csv'', ''*.pyc'', ''-r'', ''b.csv'', ''a.csv'']"
    using glob_expand_win32 [OF w,
        of "[''*.csv'', ''*.pyc'', ''-r'', ''*.csv'']"
           "\<lambda>p. Inr (if p = ''*.csv'' then [''b.csv'', ''a.csv''] else [])"
           "\<lambda>p. if p = ''*.csv'' then [''b.csv'', ''a.csv''] else []"]
    by simp
  moreover have "glob_expand ''win32''
       (\<lambda>p. if p = ''bad'' then Inl (OtherException ''RecursionError'') else Inr [])
       [''-r'', ''bad'', ''x'']
     = Inl (OtherException ''RecursionError'')"
    using glob_expand_win32 [OF w,
        of "[]"
           "\<lambda>p. if p = ''bad'' then Inl (OtherException ''RecursionError'') else Inr []"
           "\<lambda>p. []" "[''-r'']" "''bad''" "OtherException ''RecursionError''" "[''x'']"]
    by simp
  ultimately show ?thesis using w by simp
qed

text \<open>
  The claim as first stated, that the step never raises, fails on a pattern on which
  \<open>glob.glob\<close> itself raises: for \<open>deep_pattern\<close> the library ends in
  \<open>RecursionError\<close>, at the first call of the loop, and \<open>_glob_expand\<close> passes it on.
\<close>

theorem glob_expand_raises_counterexample:
  "is_win32 ''win32'' \<and>
   glob_expand ''win32''
       (\<lambda>p. if p = deep_pattern then Inl (OtherException ''RecursionError'') else Inr [])
       [deep_pattern]
     = Inl (OtherException ''RecursionError'')"
  by (simp add: is_win32_def glob_expand_def)

text \<open>
  Claim C9. Expansion leaves a list of literal arguments as it is: when \<open>glob\<close> of
  each entry gives exactly that entry (it names an existing path) or nothing, the
  expanded list is the list itself, on every platform.
\<close>

theorem glob_expand_literal_identity:
  assumes "\<forall>a\<in>set args. glob a = Inr [a] \<or> glob a = Inr []"
  shows "glob_expand platform glob args = Inr args"
  using assms by (simp add: glob_expand_def glob_loop_literal)

theorem glob_expand_literal_identity_witness:
  "glob_expand ''win32'' (\<lambda>p. Inr (if p = ''a.txt'' then [''a.txt''] else []))
       [''a.txt'', ''-r'', ''b.txt'']
     = Inr [''a.txt'', ''-r'', ''b.txt''] \<and>
   glob_expand ''linux'' (\<lambda>p. Inr (if p = ''a.txt'' then [''a.txt''] else []))
       [''a.txt'', ''-r'', ''b.txt'']
     = Inr [''a.txt'', ''-r'', ''b.txt'']"
  using glob_expand_literal_identity
      [of "[''a.txt'', ''-r'', ''b.txt'']" "\<lambda>p. Inr (if p = ''a.txt'' then [''a.txt''] else [])" "''win32''"]
    glob_expand_literal_identity
      [of "[''a.txt'', ''-r'', ''b.txt'']" "\<lambda>p. Inr (if p = ''a.txt'' then [''a.txt''] else [])" "''linux''"]
  by simp

section \<open>The flag query\<close>

text \<open>
  Claim C7. \<open>flag name\<close> returns true exactly when \<open>name\<close> is equal to a whole
  token of the original arguments, whatever earlier queries have removed from the working
  list; when no token is equal to \<open>name\<close> it returns false and leaves the state as
  it was.
\<close>

theorem flag_exact_match:
  "fst (flag (run_queries (init_state raw) qs) name) = (name \<in> set raw) \<and>
   (name \<notin> set raw \<longrightarrow>
      flag (run_queries (init_state raw) qs) name = (False, run_queries (init_state raw) qs))"
proof (cases "name \<in> set raw")
  case True
  then have "name \<in> set (original_arguments (run_queries (init_state raw) qs))"
    by (simp add: original_reachable)
  then have "fst (flag (run_queries (init_state raw) qs) name) = True"
    by (simp add: flag_present)
  with True show ?thesis by simp
next
  case False
  then have "name \<notin> set (original_arguments (run_queries (init_state raw) qs))"
    by (simp add: original_reachable)
  then have "flag (run_queries (init_state raw) qs) name = (False, run_queries (init_state raw) qs)"
    by (rule flag_absent)
  with False show ?thesis by simp
qed

theorem flag_exact_match_witness:
  "''-r'' \<notin> set [''-rf'', ''x''] \<and>
   flag (run_queries (init_state [''-rf'', ''x'']) [Flag ''x'' :: py_value query]) ''-r''
     = (False, \<lparr>arguments = [''-rf''], original_arguments = [''-rf'', ''x'']\<rparr>) \<and>
   fst (flag (run_queries (init_state [''-rf'', ''x'']) [Flag ''x'' :: py_value query]) ''x'')"
  using flag_exact_match [of "[''-rf'', ''x'']" "[Flag ''x'' :: py_value query]" "''-r''"]
    flag_exact_match [of "[''-rf'', ''x'']" "[Flag ''x'' :: py_value query]" "''x''"]
  by (simp add: init_state_def flag_def remove_if_present_def)

text \<open>
  Claim C4, as amended. For a name among the original arguments, two calls of
  \<open>flag name\<close> in a row both return true, and each call removes the first occurrence
  of \<open>name\<close> still in the working list, if there is one. The second call therefore
  removes nothing when the working list held at most one occurrence before the first call,
  and in particular when \<open>name\<close> occurs exactly once in the original arguments.
\<close>

theorem flag_twice:
  assumes "name \<in> set raw"
  shows "fst (flag (run_queries (init_state raw) qs) name)
         \<and> fst (flag (snd (flag (run_queries (init_state raw) qs) name)) name)
         \<and> arguments (snd (flag (run_queries (init_state raw) qs) name))
             = remove1 name (arguments (run_queries (init_state raw) qs))
         \<and> arguments (snd (flag (snd (flag (run_queries (init_state raw) qs) name)) name))
             = remove1 name (remove1 name (arguments (run_queries (init_state raw) qs)))
         \<and> (count_list (arguments (run_queries (init_state raw) qs)) name \<le> 1 \<longrightarrow>
               snd (flag (snd (flag (run_queries (init_state raw) qs) name)) name)
                 = snd (flag (run_queries (init_state raw) qs) name))
         \<and> (count_list raw name = 1 \<longrightarrow>
               snd (flag (snd (flag (run_queries (init_state raw) qs) name)) name)
                 = snd (flag (run_queries (init_state raw) qs) name))"
proof -
  let ?s = "run_queries (init_state raw) qs"
  let ?s1 = "?s\<lparr>arguments := remove1 name (arguments ?s)\<rparr>"
  have orig: "original_arguments ?s = raw"
    by (rule original_reachable)
  with assms have first: "flag ?s name = (True, ?s1)"
    by (simp add: flag_present_state)
  have "name \<in> set (original_arguments ?s1)"
    using assms orig by simp
  then have "flag ?s1 name = (True, ?s1\<lparr>arguments := remove1 name (arguments ?s1)\<rparr>)"
    by (rule flag_present_state)
  then have second: "flag ?s1 name = (True, ?s\<lparr>arguments := remove1 name (remove1 name (arguments ?s))\<rparr>)"
    by simp
  have "subseq (arguments ?s) (arguments (init_state raw))"
    by (rule subseq_run_queries)
  then have "count_list (arguments ?s) name \<le> count_list raw name"
    using subseq_count_list[of "arguments ?s" raw name] by (simp add: init_state_def)
  then have once: "count_list raw name = 1 \<longrightarrow> count_list (arguments ?s) name \<le> 1"
    by simp
  have "count_list (arguments ?s) name \<le> 1 \<longrightarrow>
      remove1 name (remove1 name (arguments ?s)) = remove1 name (arguments ?s)"
    by (simp add: remove1_twice_once)
  with once first second show ?thesis by simp
qed

theorem flag_twice_witness:
  "''-r'' \<in> set [''-r'', ''a'', ''-r''] \<and> ''a'' \<in> set [''-r'', ''a'', ''-r''] \<and>
   arguments (snd (flag (snd (flag (init_state [''-r'', ''a'', ''-r'']) ''-r'')) ''-r'')) = [''a''] \<and>
   snd (flag (snd (flag (init_state [''-r'', ''a'', ''-r'']) ''a'')) ''a'')
     = snd (flag (init_state [''-r'', ''a'', ''-r'']) ''a'') \<and>
   arguments (snd (flag (init_state [''-r'', ''a'', ''-r'']) ''a'')) = [''-r'', ''-r'']"
  using flag_twice [of "''-r''" "[''-r'', ''a'', ''-r'']" "[] :: py_value query list"]
    flag_twice [of "''a''" "[''-r'', ''a'', ''-r'']" "[] :: py_value query list"]
  by (simp add: init_state_def)

text \<open>
  The claim as first stated, that the two calls remove \<open>name\<close> at most once in
  total, fails when the token is repeated on the command line: with the arguments
  \<^verbatim>\<open>-r -r\<close> the second call finds the second \<^verbatim>\<open>-r\<close> in the working list and
  removes it too.
\<close>

theorem flag_twice_removes_twice_counterexample:
  "fst (flag (init_state [''-r'', ''-r'']) ''-r'') \<and>
   arguments (snd (flag (init_state [''-r'', ''-r'']) ''-r'')) = [''-r''] \<and>
   fst (flag (snd (flag (init_state [''-r'', ''-r'']) ''-r'')) ''-r'') \<and>
   arguments (snd (flag (snd (flag (init_state [''-r'', ''-r'']) ''-r'')) ''-r'')) = [] \<and>
   arguments (snd (flag (snd (flag (init_state [''-r'', ''-r'']) ''-r'')) ''-r''))
     \<noteq> arguments (snd (flag (init_state [''-r'', ''-r'']) ''-r''))"
  by (simp add: flag_def init_state_def remove_if_present_def)

section \<open>The option query\<close>

text \<open>
  Claim C6. When \<open>name\<close> is not among the original arguments, \<open>option\<close> returns
  \<open>default\<close> as it was given, without applying \<open>convert\<close>, and leaves the state
  untouched.
\<close>

theorem option_absent_returns_default:
  assumes "name \<notin> set raw"
  shows "option (run_queries (init_state raw) qs) name dflt missing convert
           = (Inr dflt, run_queries (init_state raw) qs)"
proof -
  from assms have "name \<notin> set (original_arguments (run_queries (init_state raw) qs))"
    by (simp add: original_reachable)
  then show ?thesis by (rule option_absent)
qed

theorem option_absent_returns_default_witness:
  "''-n'' \<notin> set [''-r'', ''data.csv''] \<and>
   option (run_queries (init_state [''-r'', ''data.csv'']) [Flag ''-r'']) ''-n''
       (PyInt 0) (PyStr '''') convert_decimal
     = (Inr (PyInt 0), \<lparr>arguments = [''data.csv''], original_arguments = [''-r'', ''data.csv'']\<rparr>)"
  using option_absent_returns_default
    [of "''-n''" "[''-r'', ''data.csv'']" "[Flag ''-r'']" "PyInt 0" "PyStr ''''" convert_decimal]
  by (simp add: init_state_def flag_def remove_if_present_def)

text \<open>
  Claim C5. When the first occurrence of \<open>name\<close> is the last original argument,
  \<open>option\<close> returns \<open>missing\<close> as it was given, whatever \<open>convert\<close> is, and
  the only change to the state is the removal of \<open>name\<close> from the working list; called
  first, it leaves the arguments before \<open>name\<close>.
\<close>

theorem option_value_missing:
  assumes "name \<notin> set front"
  shows "option (run_queries (init_state (front @ [name])) qs) name dflt missing convert
           = (Inr missing,
              (run_queries (init_state (front @ [name])) qs)
                \<lparr>arguments := remove1 name (arguments (run_queries (init_state (front @ [name])) qs))\<rparr>)
         \<and> option (init_state (front @ [name])) name dflt missing convert
           = (Inr missing, \<lparr>arguments = front, original_arguments = front @ [name]\<rparr>)"
proof -
  have "original_arguments (run_queries (init_state (front @ [name])) qs) = front @ [name]"
    by (rule original_reachable)
  then have reached: "option (run_queries (init_state (front @ [name])) qs) name dflt missing convert
      = (Inr missing, remove_if_present name (run_queries (init_state (front @ [name])) qs))"
    using assms by (rule option_last_state)
  have "original_arguments (init_state (front @ [name])) = front @ [name]"
    by (simp add: init_state_def)
  then have "option (init_state (front @ [name])) name dflt missing convert
      = (Inr missing, remove_if_present name (init_state (front @ [name])))"
    using assms by (rule option_last_state)
  moreover have "remove_if_present name (init_state (front @ [name]))
      = \<lparr>arguments = front, original_arguments = front @ [name]\<rparr>"
    using assms by (simp add: remove_if_present_eq init_state_def remove1_append)
  ultimately show ?thesis
    using reached by (simp add: remove_if_present_eq)
qed

theorem option_value_missing_witness:
  "''-f'' \<notin> set [] \<and>
   option_defaults (init_state [''-f'']) ''-f''
     = (Inr (PyStr ''''), \<lparr>arguments = [], original_arguments = [''-f'']\<rparr>)"
  using option_value_missing [of "''-f''" "[]" "[]" PyNone "PyStr ''''" convert_str]
  by (simp add: option_defaults_def init_state_def)

text \<open>
  Claim C2. When the first occurrence of \<open>name\<close> in the original arguments is at
  index \<open>i\<close> and a token follows it, then after any earlier queries \<open>option\<close>
  removes the first occurrence of \<open>name\<close> and then the first occurrence of the token
  at index \<open>i + 1\<close> of the original arguments from the working list (each if still
  there), leaves the original arguments alone, and returns what \<open>convert\<close> returns
  for that token.
\<close>

theorem option_takes_original_neighbour:
  assumes "i + 1 < length raw" and "raw ! i = name" and "name \<notin> set (take i raw)"
  shows "arguments (snd (option (run_queries (init_state raw) qs) name dflt missing convert))
           = remove1 (raw ! (i + 1)) (remove1 name (arguments (run_queries (init_state raw) qs)))
         \<and> original_arguments (snd (option (run_queries (init_state raw) qs) name dflt missing convert)) = raw
         \<and> (\<forall>y. convert (raw ! (i + 1)) = Inr y \<longrightarrow>
               fst (option (run_queries (init_state raw) qs) name dflt missing convert) = Inr y)"
proof -
  have "original_arguments (run_queries (init_state raw) qs) = raw"
    by (rule original_reachable)
  from option_value_state[OF this assms, of dflt missing convert]
  show ?thesis by (simp add: original_reachable)
qed

theorem option_takes_original_neighbour_witness:
  "option_defaults (init_state [''-r'', ''-f'', ''infile.txt'', ''extra'']) ''-f''
     = (Inr (PyStr ''infile.txt''),
        \<lparr>arguments = [''-r'', ''extra''],
           original_arguments = [''-r'', ''-f'', ''infile.txt'', ''extra'']\<rparr>)"
proof -
  let ?raw = "[''-r'', ''-f'', ''infile.txt'', ''extra'']"
  have "arguments (snd (option_defaults (init_state ?raw) ''-f'')) = [''-r'', ''extra'']
      \<and> original_arguments (snd (option_defaults (init_state ?raw) ''-f'')) = ?raw
      \<and> fst (option_defaults (init_state ?raw) ''-f'') = Inr (PyStr ''infile.txt'')"
    using option_takes_original_neighbour
      [of 1 ?raw "''-f''" "[]" PyNone "PyStr ''''" convert_str]
    by (simp add: option_defaults_def init_state_def convert_str_def)
  then show ?thesis
    by (cases "option_defaults (init_state ?raw) ''-f''") simp
qed

text \<open>
  The value is the neighbour in the original order even when an earlier query has already
  consumed it: after \<^verbatim>\<open>flag("-r")\<close> on \<^verbatim>\<open>-f -r x\<close> the option \<^verbatim>\<open>-f\<close> still has
  the value \<^verbatim>\<open>-r\<close>, not \<^verbatim>\<open>x\<close>.
\<close>

lemma option_original_adjacency_example:
  "option_defaults (run_queries (init_state [''-f'', ''-r'', ''x'']) [Flag ''-r'' :: py_value query]) ''-f''
     = (Inr (PyStr ''-r''), \<lparr>arguments = [''x''], original_arguments = [''-f'', ''-r'', ''x'']\<rparr>)"
  by (simp add: option_defaults_def option_def option_try_def init_state_def flag_def
      remove_if_present_def list_getitem_def convert_str_def)

text \<open>
  Claim C10. When \<open>name\<close> has a following token and \<open>convert\<close> raises
  \<open>ValueError\<close> on it, \<open>option\<close> returns \<open>default\<close>, the value it returns for
  an absent option, and the removals of \<open>name\<close> and of the value token stay in
  effect; so, unlike the absent case, the working list has changed whenever \<open>name\<close>
  was still in it.
\<close>

theorem option_convert_ValueError_gives_default:
  assumes "i + 1 < length raw" and "raw ! i = name" and "name \<notin> set (take i raw)"
    and "convert (raw ! (i + 1)) = Inl ValueError"
  shows "option (run_queries (init_state raw) qs) name dflt missing convert
           = (Inr dflt,
              (run_queries (init_state raw) qs)
                \<lparr>arguments := remove1 (raw ! (i + 1))
                    (remove1 name (arguments (run_queries (init_state raw) qs)))\<rparr>)
         \<and> (name \<in> set (arguments (run_queries (init_state raw) qs)) \<longrightarrow>
               arguments (snd (option (run_queries (init_state raw) qs) name dflt missing convert))
                 \<noteq> arguments (run_queries (init_state raw) qs))"
proof -
  let ?s = "run_queries (init_state raw) qs"
  have "original_arguments ?s = raw"
    by (rule original_reachable)
  from option_value_state[OF this assms(1-3), of dflt missing convert]
  have eq: "option ?s name dflt missing convert
      = (Inr dflt, ?s\<lparr>arguments := remove1 (raw ! (i + 1)) (remove1 name (arguments ?s))\<rparr>)"
    using assms(4) by simp
  have "length (remove1 (raw ! (i + 1)) (remove1 name (arguments ?s))) < length (arguments ?s)"
    if "name \<in> set (arguments ?s)"
  proof -
    have "length (remove1 (raw ! (i + 1)) (remove1 name (arguments ?s)))
        \<le> length (remove1 name (arguments ?s))"
      by (rule length_remove1_le)
    also have "\<dots> < length (arguments ?s)"
      using that by (rule length_remove1_less)
    finally show ?thesis .
  qed
  then have "name \<in> set (arguments ?s) \<longrightarrow>
      remove1 (raw ! (i + 1)) (remove1 name (arguments ?s)) \<noteq> arguments ?s"
    by auto
  with eq show ?thesis by simp
qed

theorem option_convert_ValueError_gives_default_witness:
  "convert_decimal ''abc'' = Inl ValueError \<and>
   option (init_state [''-n'', ''abc'', ''rest'']) ''-n'' (PyInt 0) (PyStr '''') convert_decimal
     = (Inr (PyInt 0), \<lparr>arguments = [''rest''], original_arguments = [''-n'', ''abc'', ''rest'']\<rparr>)"
proof -
  have c: "convert_decimal ''abc'' = Inl ValueError"
    by (simp add: convert_decimal_def is_digit_def)
  then show ?thesis
    using option_convert_ValueError_gives_default
      [of 0 "[''-n'', ''abc'', ''rest'']" "''-n''" convert_decimal "[]" "PyInt 0" "PyStr ''''"]
    by (simp add: init_state_def)
qed

text \<open>
  Claim C1 states that a failure of \<open>convert\<close> always reaches the caller. The
  \<open>convert\<close> call sits inside the \<open>try\<close> block whose handlers are written for the
  \<open>index\<close> call and the subscript, so a \<open>ValueError\<close> raised by \<open>convert\<close> is
  answered with \<open>default\<close> and an \<open>IndexError\<close> with \<open>missing\<close>: on
  \<^verbatim>\<open>-n x1\<close> the call \<^verbatim>\<open>option("-n", default=0, convert=...)\<close> returns \<open>0\<close>.
\<close>

theorem option_catches_convert_exceptions:
  "convert_decimal ''x1'' = Inl ValueError \<and>
   option (init_state [''-n'', ''x1'']) ''-n'' (PyInt 0) (PyStr '''') convert_decimal
     = (Inr (PyInt 0), \<lparr>arguments = [], original_arguments = [''-n'', ''x1'']\<rparr>) \<and>
   option (init_state [''-k'', ''v'']) ''-k'' PyNone (PyStr '''') (\<lambda>v. Inl IndexError)
     = (Inr (PyStr ''''), \<lparr>arguments = [], original_arguments = [''-k'', ''v'']\<rparr>)"
  by (simp add: option_def option_try_def init_state_def remove_if_present_def list_getitem_def
      convert_decimal_def is_digit_def)

text \<open>Every exception that neither handler catches does leave \<open>option\<close>.\<close>

lemma option_other_exception_propagates:
  assumes "i + 1 < length raw" and "raw ! i = name" and "name \<notin> set (take i raw)"
    and "convert (raw ! (i + 1)) = Inl (OtherException c)"
  shows "fst (option (run_queries (init_state raw) qs) name dflt missing convert)
           = Inl (OtherException c)"
proof -
  have "original_arguments (run_queries (init_state raw) qs) = raw"
    by (rule original_reachable)
  from option_value_state[OF this assms(1-3), of dflt missing convert]
  show ?thesis using assms(4) by simp
qed

section \<open>The working list stays a subsequence\<close>

text \<open>
  Claim C3. After any sequence of \<open>flag\<close> and \<open>option\<close> calls on any argument
  list, the working list is an order-preserving subsequence of the original arguments;
  in particular each of its elements occurs among them.
\<close>

theorem queries_keep_subsequence:
  "subseq (arguments (run_queries (init_state raw) qs)) raw \<and>
   set (arguments (run_queries (init_state raw) qs)) \<subseteq> set raw"
proof -
  have "subseq (arguments (run_queries (init_state raw) qs)) (arguments (init_state raw))"
    by (rule subseq_run_queries)
  then have s: "subseq (arguments (run_queries (init_state raw) qs)) raw"
    by (simp add: init_state_def)
  then have "set (arguments (run_queries (init_state raw) qs)) \<subseteq> set raw"
    by (rule subseq_set_subset)
  with s show ?thesis by simp
qed

end
